theory Spec2Isabelle
  imports Complex_Main
begin

section \<open>Seagrass map: a shallow embedding of seagrass_map.py\<close>

text \<open>
  Python floats are modelled as \<^typ>\<open>real\<close>, Python integers as \<^typ>\<open>int\<close>. The
  functions of pandas, geopandas, pyproj and the random module that the script calls are
  parameters of the model; every exception they may raise is a value of \<open>error\<close>. A
  file can always be opened for writing.
\<close>

subsection \<open>Python values and exceptions\<close>

datatype error = KeyError | TypeError | FileNotFoundError | ParserError | CRSError

text \<open>The values a GeoJSON feature is made of.\<close>

datatype pyval =
    PyNone
  | PyBool bool
  | PyInt int
  | PyFloat real
  | PyStr string
  | PyDict "(string \<times> pyval) list"

text \<open>\<open>d[k]\<close> for a string key: a dict looks the key up, anything else is not subscriptable
  by a string.\<close>

fun getitem :: "pyval \<Rightarrow> string \<Rightarrow> error + pyval" where
  "getitem (PyDict d) k = (case map_of d k of None \<Rightarrow> Inl KeyError | Some v \<Rightarrow> Inr v)"
| "getitem _ k = Inl TypeError"

text \<open>\<open>v == k\<close> for an integer literal \<open>k\<close>: numbers compare by value (so \<open>1.0 == 1\<close> and
  \<open>True == 1\<close>), every other value is unequal to an integer.\<close>

fun py_eq_int :: "pyval \<Rightarrow> int \<Rightarrow> bool" where
  "py_eq_int (PyInt n) k = (n = k)"
| "py_eq_int (PyFloat r) k = (r = of_int k)"
| "py_eq_int (PyBool b) k = ((if b then 1 else 0) = k)"
| "py_eq_int _ k = False"

subsection \<open>The world of the module\<close>

text \<open>The module's state outside its arguments: the files it reads and writes (as text) and
  the hidden generator of the random module.\<close>

record 's world =
  files :: "string \<rightharpoonup> string"
  rng :: 's

subsection \<open>generate_random_data\<close>

text \<open>The tab and the newline of the format strings.\<close>

definition TAB :: char where
  "TAB = CHR 0x09"

definition NL :: char where
  "NL = CHR 0x0A"

text \<open>\<open>'%d' % n\<close>: the decimal digits, after a minus sign for a negative number.\<close>

fun digits :: "nat \<Rightarrow> string" where
  "digits n = (if n < 10 then [''0123456789'' ! n]
               else digits (n div 10) @ [''0123456789'' ! (n mod 10)])"

declare digits.simps [simp del]

definition format_d :: "int \<Rightarrow> string" where
  "format_d n = (if n < 0 then ''-'' @ digits (nat (- n)) else digits (nat n))"

text \<open>\<open>'%.6f' % r\<close>: the sign, and the magnitude rounded to a whole number of millionths,
  a tie going to the even one; the integer part, a point and six digits.\<close>

definition round_half_even :: "real \<Rightarrow> int" where
  "round_half_even x =
     (let f = \<lfloor>x\<rfloor>; d = x - of_int f
      in if d < 1 / 2 then f else if 1 / 2 < d then f + 1 else if even f then f else f + 1)"

definition millionths :: "real \<Rightarrow> nat" where
  "millionths r = nat (round_half_even (\<bar>r\<bar> * 1000000))"

definition format_6f :: "real \<Rightarrow> string" where
  "format_6f r =
     (if r < 0 then ''-'' else []) @ digits (millionths r div 1000000) @ ''.''
       @ replicate (6 - length (digits (millionths r mod 1000000))) CHR ''0''
       @ digits (millionths r mod 1000000)"

text \<open>The magnitude in millionths, with the sign of \<open>r\<close>, as a number.\<close>

definition value_6f :: "real \<Rightarrow> real" where
  "value_6f r = (if r < 0 then - 1 else 1) * real (millionths r) / 1000000"

text \<open>Reading a decimal text back: an optional minus sign, the digits before the point and
  the digits after it.\<close>

definition digit_value :: "char \<Rightarrow> nat" where
  "digit_value c = of_char c - 48"

definition decimal_value :: "string \<Rightarrow> nat" where
  "decimal_value s = foldl (\<lambda>a c. 10 * a + digit_value c) 0 s"

definition read_unsigned :: "string \<Rightarrow> real" where
  "read_unsigned s =
     (let whole = takeWhile (\<lambda>c. c \<noteq> CHR ''.'') s;
          fraction = drop 1 (dropWhile (\<lambda>c. c \<noteq> CHR ''.'') s)
      in real (decimal_value whole) + real (decimal_value fraction) / 10 ^ length fraction)"

definition read_decimal :: "string \<Rightarrow> real" where
  "read_decimal s =
     (if take 1 s = ''-'' then - read_unsigned (drop 1 s) else read_unsigned s)"

text \<open>The number that a reader of the file finds where \<open>'%.6f' % r\<close> was written.\<close>

definition written_6f :: "real \<Rightarrow> real" where
  "written_6f r = read_decimal (format_6f r)"

definition header :: string where
  "header = ''cell'' @ [TAB] @ ''latitude'' @ [TAB] @ ''longitude'' @ [TAB]
              @ ''n_seagrass_plants'' @ [TAB] @ ''method'' @ [NL]"

text \<open>Line 75: the five values of a row, formatted.\<close>

definition format_row :: "int \<times> real \<times> real \<times> int \<times> string \<Rightarrow> string" where
  "format_row r =
     (case r of (cell, lat, lon, n_plants, method) \<Rightarrow>
        format_d cell @ [TAB] @ format_6f lat @ [TAB] @ format_6f lon @ [TAB]
          @ format_d n_plants @ [TAB] @ method @ [NL])"

text \<open>Lines 61-73, the body of the loop for the index \<open>i\<close>: the values of the row and the
  generator's state after its three draws. \<open>randint\<close> and \<open>random\<close> are the random module's
  functions on the generator's state, parameters of the model.\<close>

definition data_row ::
  "(int \<Rightarrow> int \<Rightarrow> 's \<Rightarrow> int \<times> 's) \<Rightarrow> ('s \<Rightarrow> real \<times> 's) \<Rightarrow> real \<Rightarrow> real \<Rightarrow> real \<Rightarrow> real \<Rightarrow>
   nat \<Rightarrow> 's \<Rightarrow> (int \<times> real \<times> real \<times> int \<times> string) \<times> 's" where
  "data_row randint random min_lat max_lat min_lon max_lon i s =
     (let cell = int i + 1;
          (n_plants, s1) = randint 0 100 s;
          (u, s2) = random s1;
          lat = min_lat + u * (max_lat - min_lat);
          (v, s3) = random s2;
          lon = min_lon + v * (max_lon - min_lon);
          method = (if i < 25 then ''1''
                    else if i < 50 then ''2''
                    else if i < 75 then ''3''
                    else ''4'')
      in ((cell, lat, lon, n_plants, method), s3))"

text \<open>The loop over \<open>range(num_rows)\<close>.\<close>

fun data_rows ::
  "(int \<Rightarrow> int \<Rightarrow> 's \<Rightarrow> int \<times> 's) \<Rightarrow> ('s \<Rightarrow> real \<times> 's) \<Rightarrow> real \<Rightarrow> real \<Rightarrow> real \<Rightarrow> real \<Rightarrow>
   nat list \<Rightarrow> 's \<Rightarrow> (int \<times> real \<times> real \<times> int \<times> string) list \<times> 's" where
  "data_rows randint random min_lat max_lat min_lon max_lon [] s = ([], s)"
| "data_rows randint random min_lat max_lat min_lon max_lon (i # idx) s =
     (let (r, s1) = data_row randint random min_lat max_lat min_lon max_lon i s;
          (rs, s2) = data_rows randint random min_lat max_lat min_lon max_lon idx s1
      in (r # rs, s2))"

text \<open>The generator is seeded, the file is opened for writing (what it held is lost), the
  header and one line per index are written. \<open>seed_rng\<close> is \<open>random.seed\<close>.\<close>

definition generate_random_data ::
  "(int option \<Rightarrow> 's \<Rightarrow> 's) \<Rightarrow> (int \<Rightarrow> int \<Rightarrow> 's \<Rightarrow> int \<times> 's) \<Rightarrow> ('s \<Rightarrow> real \<times> 's) \<Rightarrow>
   real \<Rightarrow> real \<Rightarrow> real \<Rightarrow> real \<Rightarrow> int \<Rightarrow> string \<Rightarrow> int option \<Rightarrow> 's world \<Rightarrow> 's world" where
  "generate_random_data seed_rng randint random min_lat max_lat min_lon max_lon num_rows
     file_name seed w =
     (let (rows, s) = data_rows randint random min_lat max_lat min_lon max_lon
                        [0..<nat num_rows] (seed_rng seed (rng w))
      in w\<lparr>files := (files w)(file_name \<mapsto> header @ concat (map format_row rows)),
            rng := s\<rparr>)"

text \<open>What the random module promises: \<open>randint(a, b)\<close> is between \<open>a\<close> and \<open>b\<close>, both
  included, and \<open>random()\<close> is in the interval from 0 to 1, 1 excluded.\<close>

definition rng_contract :: "(int \<Rightarrow> int \<Rightarrow> 's \<Rightarrow> int \<times> 's) \<Rightarrow> ('s \<Rightarrow> real \<times> 's) \<Rightarrow> bool" where
  "rng_contract randint random =
     ((\<forall>a b s. a \<le> b \<longrightarrow> a \<le> fst (randint a b s) \<and> fst (randint a b s) \<le> b)
      \<and> (\<forall>s. 0 \<le> fst (random s) \<and> fst (random s) < 1))"

subsection \<open>style_function\<close>

record style =
  color :: string
  weight :: int

text \<open>The function returns \<open>None\<close> when no branch of the chain is taken.\<close>

definition style_function :: "pyval \<Rightarrow> error + style option" where
  "style_function feature =
     (case getitem feature ''properties'' of
        Inl e \<Rightarrow> Inl e
      | Inr props \<Rightarrow>
          (case getitem props ''method'' of
             Inl e \<Rightarrow> Inl e
           | Inr m \<Rightarrow>
               if py_eq_int m 1 then Inr (Some \<lparr>color = ''orange'', weight = 4\<rparr>)
               else if py_eq_int m 2 then Inr (Some \<lparr>color = ''red'', weight = 4\<rparr>)
               else if py_eq_int m 3 then Inr (Some \<lparr>color = ''blue'', weight = 4\<rparr>)
               else if py_eq_int m 4 then Inr (Some \<lparr>color = ''Yellow'', weight = 4\<rparr>)
               else Inr None))"

text \<open>A feature whose properties hold the given method value.\<close>

definition feature_with_method :: "pyval \<Rightarrow> pyval" where
  "feature_with_method m = PyDict [(''properties'', PyDict [(''method'', m)])]"

subsection \<open>Tables and geometries\<close>

text \<open>A shapely \<open>Point(x, y)\<close>; a polygon is its exterior ring, a list of vertices.\<close>

type_synonym point = "real \<times> real"
type_synonym polygon = "point list"

text \<open>A row of the DataFrame read from the file: its five columns.\<close>

record row =
  cell :: int
  latitude :: real
  longitude :: real
  n_seagrass_plants :: int
  "method" :: pyval

text \<open>A row of the GeoDataFrame \<open>seagrass\<close> and of \<open>gdf\<close>: the five columns and a point.\<close>

record geo_row = row +
  geometry :: point

text \<open>A row of \<open>grid_df\<close>: the polygon and the three columns added at the end.\<close>

record grid_row =
  geometry :: polygon
  n_plants :: int
  cell :: int
  "method" :: pyval

text \<open>\<open>shapely.geometry.box(minx, miny, maxx, maxy)\<close>: the rectangle's ring, counter-clockwise
  from the corner (maxx, miny), closed by repeating that corner.\<close>

definition box :: "real \<Rightarrow> real \<Rightarrow> real \<Rightarrow> real \<Rightarrow> polygon" where
  "box minx miny maxx maxy =
     [(maxx, miny), (maxx, maxy), (minx, maxy), (minx, miny), (maxx, miny)]"

subsection \<open>create_grid_df\<close>

text \<open>A library call applied to every element of a column; the first exception ends it.\<close>

fun map_result :: "('a \<Rightarrow> error + 'b) \<Rightarrow> 'a list \<Rightarrow> error + 'b list" where
  "map_result f [] = Inr []"
| "map_result f (x # xs) =
     (case f x of
        Inl e \<Rightarrow> Inl e
      | Inr y \<Rightarrow> (case map_result f xs of Inl e \<Rightarrow> Inl e | Inr ys \<Rightarrow> Inr (y # ys)))"

text \<open>Lines 121-122: every row gets the point (longitude, latitude).\<close>

definition seagrass :: "row list \<Rightarrow> geo_row list" where
  "seagrass df =
     map (\<lambda>r. \<lparr>row.cell = row.cell r, latitude = latitude r, longitude = longitude r,
               n_seagrass_plants = n_seagrass_plants r, row.method = row.method r,
               geo_row.geometry = (longitude r, latitude r)\<rparr>) df"

text \<open>\<open>GeoDataFrame.to_crs\<close> on a frame of points and on a frame of polygons. The coordinate
  transformation \<open>to_crs src dst\<close> between two EPSG codes is the library's and a parameter.\<close>

definition to_crs_points ::
  "(int \<Rightarrow> int \<Rightarrow> point \<Rightarrow> error + point) \<Rightarrow> int \<Rightarrow> int \<Rightarrow> geo_row list \<Rightarrow> error + geo_row list" where
  "to_crs_points to_crs src dst frame =
     map_result (\<lambda>r. case to_crs src dst (geo_row.geometry r) of
                        Inl e \<Rightarrow> Inl e
                      | Inr p \<Rightarrow> Inr (r\<lparr>geo_row.geometry := p\<rparr>)) frame"

definition to_crs_polygons ::
  "(int \<Rightarrow> int \<Rightarrow> point \<Rightarrow> error + point) \<Rightarrow> int \<Rightarrow> int \<Rightarrow> polygon list \<Rightarrow> error + polygon list" where
  "to_crs_polygons to_crs src dst frame = map_result (map_result (to_crs src dst)) frame"

text \<open>Lines 129-131.\<close>

definition grid_geometries :: "geo_row list \<Rightarrow> real \<Rightarrow> polygon list" where
  "grid_geometries gdf grid_size =
     map (\<lambda>r. case geo_row.geometry r of
                 (x, y) \<Rightarrow> box (x - grid_size / 2) (y - grid_size / 2)
                               (x + grid_size / 2) (y + grid_size / 2)) gdf"

text \<open>Lines 133-141: the polygons, with the three columns of \<open>seagrass\<close> beside them, row by
  row (both frames carry the index 0, 1, ... of the file's rows).\<close>

definition add_columns :: "polygon list \<Rightarrow> geo_row list \<Rightarrow> grid_row list" where
  "add_columns polys sg =
     map (\<lambda>(poly, r). \<lparr>grid_row.geometry = poly, n_plants = n_seagrass_plants r,
                        grid_row.cell = row.cell r, grid_row.method = row.method r\<rparr>)
         (zip polys sg)"

text \<open>The function. Line 118 opens the file (\<open>FileNotFoundError\<close> where there is none) and
  parses its text with \<open>pd.read_csv\<close>, a parameter: it returns the rows of the table with
  their five columns, or raises. The result is the pair \<open>(gdf, grid_df)\<close>.\<close>

definition create_grid_df ::
  "(string \<Rightarrow> error + row list) \<Rightarrow> (int \<Rightarrow> int \<Rightarrow> point \<Rightarrow> error + point) \<Rightarrow>
   's world \<Rightarrow> string \<Rightarrow> int \<Rightarrow> real \<Rightarrow> error + (geo_row list \<times> grid_row list)" where
  "create_grid_df read_csv to_crs w file_name utm grid_size =
     (case files w file_name of
        None \<Rightarrow> Inl FileNotFoundError
      | Some content \<Rightarrow>
          (case read_csv content of
             Inl e \<Rightarrow> Inl e
           | Inr df \<Rightarrow>
               (case to_crs_points to_crs 4326 utm (seagrass df) of
                  Inl e \<Rightarrow> Inl e
                | Inr gdf \<Rightarrow>
                    (case to_crs_polygons to_crs utm 4326 (grid_geometries gdf grid_size) of
                       Inl e \<Rightarrow> Inl e
                     | Inr polys \<Rightarrow> Inr (gdf, add_columns polys (seagrass df))))))"

text \<open>A record that the library transforms: its point into the zone, and the corners of the
  square around the result back.\<close>

definition transformable ::
  "(int \<Rightarrow> int \<Rightarrow> point \<Rightarrow> error + point) \<Rightarrow> int \<Rightarrow> real \<Rightarrow> row \<Rightarrow> bool" where
  "transformable to_crs utm grid_size r =
     (case to_crs 4326 utm (longitude r, latitude r) of
        Inl e \<Rightarrow> False
      | Inr (x, y) \<Rightarrow>
          list_all (\<lambda>c. \<not> isl (to_crs utm 4326 c))
            (box (x - grid_size / 2) (y - grid_size / 2) (x + grid_size / 2) (y + grid_size / 2)))"

subsection \<open>Polygons: the vocabulary of the claims\<close>

text \<open>The edges of a ring, each from a vertex to the next.\<close>

definition edges :: "polygon \<Rightarrow> (point \<times> point) list" where
  "edges ring = zip ring (tl ring)"

definition segment_length :: "point \<Rightarrow> point \<Rightarrow> real" where
  "segment_length a b = sqrt ((fst b - fst a)\<^sup>2 + (snd b - snd a)\<^sup>2)"

definition side_lengths :: "polygon \<Rightarrow> real list" where
  "side_lengths ring = map (\<lambda>(a, b). segment_length a b) (edges ring)"

definition midpoint :: "point \<Rightarrow> point \<Rightarrow> point" where
  "midpoint a b = ((fst a + fst b) / 2, (snd a + snd b) / 2)"

definition axis_aligned :: "polygon \<Rightarrow> bool" where
  "axis_aligned ring = list_all (\<lambda>(a, b). fst a = fst b \<or> snd a = snd b) (edges ring)"

text \<open>Twice the signed area of the triangle \<open>a b p\<close>: positive when \<open>p\<close> is to the left of the
  edge from \<open>a\<close> to \<open>b\<close>. A point is strictly inside a convex counter-clockwise ring when it
  is to the left of every edge.\<close>

definition cross :: "point \<Rightarrow> point \<Rightarrow> point \<Rightarrow> real" where
  "cross a b p = (fst b - fst a) * (snd p - snd a) - (snd b - snd a) * (fst p - fst a)"

definition strictly_inside :: "point \<Rightarrow> polygon \<Rightarrow> bool" where
  "strictly_inside p ring = list_all (\<lambda>(a, b). 0 < cross a b p) (edges ring)"

text \<open>The points of the straight segment from \<open>a\<close> to \<open>b\<close>.\<close>

definition segment :: "point \<Rightarrow> point \<Rightarrow> point set" where
  "segment a b =
     {p. \<exists>t. 0 \<le> t \<and> t \<le> 1 \<and> p = (fst a + t * (fst b - fst a), snd a + t * (snd b - snd a))}"

text \<open>A closed ring that does not cross or touch itself: consecutive edges meet in their
  common vertex only (the last edge and the first in the ring's first vertex), and all
  other pairs of edges are disjoint.\<close>

definition simple_ring :: "polygon \<Rightarrow> bool" where
  "simple_ring ring =
     (let es = edges ring; n = length es in
        3 \<le> n \<and> hd ring = last ring \<and>
        (\<forall>i<n. \<forall>j<n. i < j \<longrightarrow>
           segment (fst (es ! i)) (snd (es ! i)) \<inter> segment (fst (es ! j)) (snd (es ! j)) =
             (if j = i + 1 then {snd (es ! i)}
              else if i = 0 \<and> j = n - 1 then {fst (es ! i)}
              else {})))"

subsection \<open>Concrete inputs\<close>

text \<open>A stand-in for the library's transformation at concrete inputs: one zone, in which a
  degree is 100000 metres along both axes; every other pair of codes is refused.\<close>

definition example_to_crs :: "int \<Rightarrow> int \<Rightarrow> point \<Rightarrow> error + point" where
  "example_to_crs src dst p =
     (case p of (x, y) \<Rightarrow>
        if src = 4326 \<and> dst = 32631 then Inr (x * 100000, y * 100000)
        else if src = 32631 \<and> dst = 4326 then Inr (x / 100000, y / 100000)
        else Inl CRSError)"

definition example_row :: row where
  "example_row = \<lparr>row.cell = 1, latitude = 51.4501, longitude = 4.1901,
                   n_seagrass_plants = 42, row.method = PyInt 2\<rparr>"

definition polar_row :: row where
  "polar_row = \<lparr>row.cell = 1, latitude = 200, longitude = 4.1901,
                 n_seagrass_plants = 42, row.method = PyInt 2\<rparr>"

text \<open>A second record at the same coordinates.\<close>

definition twin_row :: row where
  "twin_row = \<lparr>row.cell = 2, latitude = 51.4501, longitude = 4.1901,
                n_seagrass_plants = 7, row.method = PyInt 4\<rparr>"

text \<open>A stand-in for \<open>pd.read_csv\<close> that knows three files by their text.\<close>

definition example_read_csv :: "string \<Rightarrow> error + row list" where
  "example_read_csv content =
     (if content = ''one record'' then Inr [example_row]
      else if content = ''two records'' then Inr [example_row, twin_row]
      else if content = ''latitude 200'' then Inr [polar_row]
      else Inl ParserError)"

definition example_world :: "unit world" where
  "example_world =
     \<lparr>files = [''random_lat_lon.txt'' \<mapsto> ''one record'', ''twins.txt'' \<mapsto> ''two records'',
               ''polar.txt'' \<mapsto> ''latitude 200''],
      rng = ()\<rparr>"

text \<open>The same file in a world whose generator is in another state and that holds no other
  file.\<close>

definition reseeded_world :: "nat world" where
  "reseeded_world = \<lparr>files = [''random_lat_lon.txt'' \<mapsto> ''one record''], rng = 17\<rparr>"

definition example_gdf :: "geo_row list" where
  "example_gdf = [\<lparr>row.cell = 1, latitude = 51.4501, longitude = 4.1901, n_seagrass_plants = 42,
                    row.method = PyInt 2, geo_row.geometry = (419010, 5145010)\<rparr>]"

definition polar_gdf :: "geo_row list" where
  "polar_gdf = [\<lparr>row.cell = 1, latitude = 200, longitude = 4.1901, n_seagrass_plants = 42,
                  row.method = PyInt 2, geo_row.geometry = (419010, 20000000)\<rparr>]"

text \<open>The ring of the record's cell for an edge of 20 metres, in degrees.\<close>

definition example_ring :: polygon where
  "example_ring = [(4.1902, 51.45), (4.1902, 51.4502), (4.19, 51.4502), (4.19, 51.45),
                   (4.1902, 51.45)]"

text \<open>A cell of the record above with the given ring.\<close>

definition example_cell :: "polygon \<Rightarrow> grid_row" where
  "example_cell ring = \<lparr>grid_row.geometry = ring, n_plants = 42, grid_row.cell = 1,
                          grid_row.method = PyInt 2\<rparr>"

text \<open>A stand-in for the random module at concrete inputs: the state is a counter,
  \<open>randint(a, b)\<close> returns \<open>a\<close> plus the counter where that is at most \<open>b\<close>, and \<open>random()\<close>
  returns one half; each draw advances the counter.\<close>

definition example_seed :: "int option \<Rightarrow> nat \<Rightarrow> nat" where
  "example_seed seed s = (case seed of None \<Rightarrow> s | Some n \<Rightarrow> nat \<bar>n\<bar>)"

definition example_randint :: "int \<Rightarrow> int \<Rightarrow> nat \<Rightarrow> int \<times> nat" where
  "example_randint a b s = (if a + int s \<le> b then a + int s else a, s + 1)"

definition example_random :: "nat \<Rightarrow> real \<times> nat" where
  "example_random s = (1 / 2, s + 1)"

section \<open>Theorems\<close>

subsection \<open>Library calls over a column\<close>

lemma map_result_Inr_iff:
  "map_result f xs = Inr ys \<longleftrightarrow> map f xs = map Inr ys"
proof (induction xs arbitrary: ys)
  case Nil
  then show ?case by auto
next
  case (Cons x xs)
  show ?case
  proof (cases ys)
    case Nil
    then show ?thesis by (simp split: sum.splits)
  next
    case (Cons y ys')
    then show ?thesis
      using Cons.IH [of ys'] by (auto split: sum.splits)
  qed
qed

lemma map_result_nth:
  assumes "map_result f xs = Inr ys"
  shows "length ys = length xs" and "i < length xs \<Longrightarrow> f (xs ! i) = Inr (ys ! i)"
proof -
  from assms have m: "map f xs = map Inr ys"
    by (simp add: map_result_Inr_iff)
  then show l: "length ys = length xs"
    by (metis length_map)
  show "i < length xs \<Longrightarrow> f (xs ! i) = Inr (ys ! i)"
    using m l by (metis nth_map)
qed

lemma map_result_Inl:
  "map_result f xs = Inl e \<Longrightarrow> \<exists>x \<in> set xs. f x = Inl e"
  by (induction xs) (auto split: sum.splits)

lemma map_result_total:
  "(\<forall>x \<in> set xs. \<not> isl (f x)) \<Longrightarrow> \<exists>ys. map_result f xs = Inr ys"
proof (induction xs)
  case Nil
  then show ?case by simp
next
  case (Cons x xs)
  then obtain ys where "map_result f xs = Inr ys" by auto
  moreover from Cons.prems obtain y where "f x = Inr y" by (cases "f x") auto
  ultimately show ?case by simp
qed

lemma map_result_ring_closed:
  assumes "map_result f ring = Inr ring'" and "ring \<noteq> []" and "hd ring = last ring"
  shows "length ring' = length ring" and "hd ring' = last ring'"
proof -
  show l: "length ring' = length ring"
    using assms(1) by (rule map_result_nth)
  have n: "ring' \<noteq> []"
    using l assms(2) by auto
  have "f (ring ! 0) = Inr (ring' ! 0)"
    using assms(1,2) by (intro map_result_nth(2)) auto
  moreover have "f (ring ! (length ring - 1)) = Inr (ring' ! (length ring - 1))"
    using assms(1,2) by (intro map_result_nth(2)) auto
  moreover have "ring ! 0 = ring ! (length ring - 1)"
    using assms(2,3) by (simp add: hd_conv_nth last_conv_nth)
  ultimately have "ring' ! 0 = ring' ! (length ring' - 1)"
    using l by simp
  then show "hd ring' = last ring'"
    using n by (simp add: hd_conv_nth last_conv_nth)
qed

lemma length_seagrass: "length (seagrass df) = length df"
  by (simp add: seagrass_def)

lemma length_grid_geometries: "length (grid_geometries gdf g) = length gdf"
  by (simp add: grid_geometries_def)

lemma to_crs_points_Inr:
  assumes "to_crs_points to_crs src dst frame = Inr gdf"
  shows "length gdf = length frame"
    and "i < length frame \<Longrightarrow> to_crs src dst (geo_row.geometry (frame ! i)) = Inr (geo_row.geometry (gdf ! i))"
    and "i < length frame \<Longrightarrow> gdf ! i = (frame ! i)\<lparr>geo_row.geometry := geo_row.geometry (gdf ! i)\<rparr>"
proof -
  let ?f = "\<lambda>r. case to_crs src dst (geo_row.geometry r) of
                        Inl e \<Rightarrow> Inl e
                      | Inr p \<Rightarrow> Inr (r\<lparr>geo_row.geometry := p\<rparr>)"
  from assms have l: "map_result ?f frame = Inr gdf"
    by (simp add: to_crs_points_def)
  then show "length gdf = length frame"
    by (rule map_result_nth)
  {
    assume "i < length frame"
    with l have "?f (frame ! i) = Inr (gdf ! i)"
      by (rule map_result_nth)
    then have "\<exists>p. to_crs src dst (geo_row.geometry (frame ! i)) = Inr p \<and> gdf ! i = (frame ! i)\<lparr>geo_row.geometry := p\<rparr>"
      by (auto split: sum.splits)
  } note step = this
  show "i < length frame \<Longrightarrow> to_crs src dst (geo_row.geometry (frame ! i)) = Inr (geo_row.geometry (gdf ! i))"
    using step by auto
  show "i < length frame \<Longrightarrow> gdf ! i = (frame ! i)\<lparr>geo_row.geometry := geo_row.geometry (gdf ! i)\<rparr>"
    using step by auto
qed

lemma create_grid_df_Inr:
  assumes "create_grid_df read_csv to_crs w file_name utm grid_size = Inr (gdf, grid_df)"
  obtains content df polys where
    "files w file_name = Some content" "read_csv content = Inr df"
    "to_crs_points to_crs 4326 utm (seagrass df) = Inr gdf"
    "to_crs_polygons to_crs utm 4326 (grid_geometries gdf grid_size) = Inr polys"
    "grid_df = add_columns polys (seagrass df)"
  using assms unfolding create_grid_df_def
  by (auto split: option.splits sum.splits)

lemma add_columns_maps:
  assumes "length polys = length sg"
  shows "length (add_columns polys sg) = length sg"
    and "map grid_row.geometry (add_columns polys sg) = polys"
    and "map n_plants (add_columns polys sg) = map n_seagrass_plants sg"
    and "map grid_row.cell (add_columns polys sg) = map row.cell sg"
    and "map grid_row.method (add_columns polys sg) = map row.method sg"
  using assms by (auto simp: add_columns_def intro!: nth_equalityI)

lemma seagrass_maps:
  "map n_seagrass_plants (seagrass df) = map n_seagrass_plants df"
  "map row.cell (seagrass df) = map row.cell df"
  "map row.method (seagrass df) = map row.method df"
  "map geo_row.geometry (seagrass df) = map (\<lambda>r. (longitude r, latitude r)) df"
  by (simp_all add: seagrass_def)

lemma create_grid_df_succeeds:
  assumes f: "files w file_name = Some content" and r: "read_csv content = Inr df"
    and t: "list_all (transformable to_crs utm grid_size) df"
  shows "\<exists>gdf polys. create_grid_df read_csv to_crs w file_name utm grid_size
           = Inr (gdf, add_columns polys (seagrass df))
         \<and> to_crs_points to_crs 4326 utm (seagrass df) = Inr gdf
         \<and> to_crs_polygons to_crs utm 4326 (grid_geometries gdf grid_size) = Inr polys
         \<and> length gdf = length df \<and> length polys = length df"
proof -
  let ?f = "\<lambda>r. case to_crs 4326 utm (geo_row.geometry r) of
                   Inl e \<Rightarrow> Inl e | Inr p \<Rightarrow> Inr (r\<lparr>geo_row.geometry := p\<rparr>)"
  have "\<forall>x \<in> set (seagrass df). \<not> isl (?f x)"
    using t by (auto simp: seagrass_def transformable_def list_all_iff split: sum.splits)
  then have "\<exists>gdf. map_result ?f (seagrass df) = Inr gdf"
    by (rule map_result_total)
  then obtain gdf where gdf: "to_crs_points to_crs 4326 utm (seagrass df) = Inr gdf"
    unfolding to_crs_points_def by blast
  note g = to_crs_points_Inr [OF gdf]
  have lg: "length gdf = length df"
    using g(1) by (simp add: length_seagrass)
  have "\<not> isl (map_result (to_crs utm 4326) ring)" if "ring \<in> set (grid_geometries gdf grid_size)" for ring
  proof -
    from that obtain i where i: "i < length df" and ring: "ring = grid_geometries gdf grid_size ! i"
      by (metis in_set_conv_nth length_grid_geometries lg)
    obtain x y where xy: "geo_row.geometry (gdf ! i) = (x, y)"
      by (cases "geo_row.geometry (gdf ! i)")
    have "to_crs 4326 utm (longitude (df ! i), latitude (df ! i)) = Inr (x, y)"
      using g(2) [of i] i xy by (simp add: length_seagrass seagrass_def)
    moreover have "transformable to_crs utm grid_size (df ! i)"
      using t i by (simp add: list_all_length)
    ultimately have "list_all (\<lambda>c. \<not> isl (to_crs utm 4326 c))
        (box (x - grid_size / 2) (y - grid_size / 2) (x + grid_size / 2) (y + grid_size / 2))"
      by (simp add: transformable_def)
    moreover have "ring = box (x - grid_size / 2) (y - grid_size / 2) (x + grid_size / 2) (y + grid_size / 2)"
      using ring i lg xy by (simp add: grid_geometries_def)
    ultimately have "\<forall>c \<in> set ring. \<not> isl (to_crs utm 4326 c)"
      by (simp add: list_all_iff)
    then have "\<exists>ys. map_result (to_crs utm 4326) ring = Inr ys"
      by (rule map_result_total)
    then show ?thesis by auto
  qed
  then have "\<forall>ring \<in> set (grid_geometries gdf grid_size). \<not> isl (map_result (to_crs utm 4326) ring)"
    by blast
  then have "\<exists>polys. map_result (map_result (to_crs utm 4326)) (grid_geometries gdf grid_size) = Inr polys"
    by (rule map_result_total)
  then obtain polys where polys: "to_crs_polygons to_crs utm 4326 (grid_geometries gdf grid_size) = Inr polys"
    unfolding to_crs_polygons_def by blast
  then have lp: "length polys = length df"
    unfolding to_crs_polygons_def using map_result_nth(1) length_grid_geometries lg by metis
  show ?thesis
    using f r gdf polys lg lp by (simp add: create_grid_df_def)
qed


subsection \<open>The rectangle of \<open>box\<close>\<close>

lemma segment_vertical:
  "(px, py) \<in> segment (x, y1) (x, y2) \<longleftrightarrow> px = x \<and> min y1 y2 \<le> py \<and> py \<le> max y1 y2"
proof
  assume "(px, py) \<in> segment (x, y1) (x, y2)"
  then obtain t where t: "0 \<le> t" "t \<le> 1" and px: "px = x" and py: "py = y1 + t * (y2 - y1)"
    by (auto simp: segment_def)
  have "py = (1 - t) * y1 + t * y2"
    using py by (simp add: algebra_simps)
  moreover have "(1 - t) * min y1 y2 \<le> (1 - t) * y1" "t * min y1 y2 \<le> t * y2"
    "(1 - t) * y1 \<le> (1 - t) * max y1 y2" "t * y2 \<le> t * max y1 y2"
    using t by (auto intro!: mult_left_mono)
  ultimately have "min y1 y2 \<le> py \<and> py \<le> max y1 y2"
    by (simp add: algebra_simps)
  with px show "px = x \<and> min y1 y2 \<le> py \<and> py \<le> max y1 y2" by simp
next
  assume a: "px = x \<and> min y1 y2 \<le> py \<and> py \<le> max y1 y2"
  show "(px, py) \<in> segment (x, y1) (x, y2)"
  proof (cases "y1 = y2")
    case True
    with a have "py = y1 + 0 * (y2 - y1)" by simp
    with a show ?thesis
      unfolding segment_def by (auto intro!: exI [of _ 0])
  next
    case False
    define t where "t = (py - y1) / (y2 - y1)"
    have "py = y1 + t * (y2 - y1)"
      using False by (simp add: t_def)
    moreover have "0 \<le> t \<and> t \<le> 1"
      using a False unfolding t_def
      by (cases "y1 < y2") (auto simp: divide_le_eq le_divide_eq zero_le_divide_iff min_def max_def split: if_splits)
    ultimately show ?thesis
      using a unfolding segment_def by auto
  qed
qed

lemma segment_swap: "(px, py) \<in> segment (x1, y1) (x2, y2) \<longleftrightarrow> (py, px) \<in> segment (y1, x1) (y2, x2)"
  by (auto simp: segment_def)

lemma segment_horizontal:
  "(px, py) \<in> segment (x1, y) (x2, y) \<longleftrightarrow> py = y \<and> min x1 x2 \<le> px \<and> px \<le> max x1 x2"
  using segment_swap [of px py x1 y x2 y] segment_vertical [of py px y x1 x2] by simp

lemma edges_box:
  "edges (box minx miny maxx maxy) =
     [((maxx, miny), (maxx, maxy)), ((maxx, maxy), (minx, maxy)),
      ((minx, maxy), (minx, miny)), ((minx, miny), (maxx, miny))]"
  by (simp add: edges_def box_def)

lemma box_right_top:
  assumes "minx < maxx" and "miny < maxy"
  shows "segment (maxx, miny) (maxx, maxy) \<inter> segment (maxx, maxy) (minx, maxy) = {(maxx, maxy)}"
  using assms by (auto simp: segment_vertical segment_horizontal)

lemma box_top_left:
  assumes "minx < maxx" and "miny < maxy"
  shows "segment (maxx, maxy) (minx, maxy) \<inter> segment (minx, maxy) (minx, miny) = {(minx, maxy)}"
  using assms by (auto simp: segment_vertical segment_horizontal)

lemma box_left_bottom:
  assumes "minx < maxx" and "miny < maxy"
  shows "segment (minx, maxy) (minx, miny) \<inter> segment (minx, miny) (maxx, miny) = {(minx, miny)}"
  using assms by (auto simp: segment_vertical segment_horizontal)

lemma box_right_bottom:
  assumes "minx < maxx" and "miny < maxy"
  shows "segment (maxx, miny) (maxx, maxy) \<inter> segment (minx, miny) (maxx, miny) = {(maxx, miny)}"
  using assms by (auto simp: segment_vertical segment_horizontal)

lemma box_right_left:
  assumes "minx < maxx"
  shows "segment (maxx, miny) (maxx, maxy) \<inter> segment (minx, maxy) (minx, miny) = {}"
  using assms by (auto simp: segment_vertical)

lemma box_top_bottom:
  assumes "miny < maxy"
  shows "segment (maxx, maxy) (minx, maxy) \<inter> segment (minx, miny) (maxx, miny) = {}"
  using assms by (auto simp: segment_horizontal)

lemma simple_ring_box:
  assumes x: "minx < maxx" and y: "miny < maxy"
  shows "simple_ring (box minx miny maxx maxy)"
proof -
  let ?es = "edges (box minx miny maxx maxy)"
  have n: "length ?es = 4"
    by (simp add: edges_box)
  have pair: "segment (fst (?es ! i)) (snd (?es ! i)) \<inter> segment (fst (?es ! j)) (snd (?es ! j)) =
             (if j = i + 1 then {snd (?es ! i)}
              else if i = 0 \<and> j = 4 - 1 then {fst (?es ! i)}
              else {})" if "i < 4" "j < 4" "i < j" for i j
  proof -
    from that consider "i = 0 \<and> j = 1" | "i = 0 \<and> j = 2" | "i = 0 \<and> j = 3"
      | "i = 1 \<and> j = 2" | "i = 1 \<and> j = 3" | "i = 2 \<and> j = 3"
      by arith
    then show ?thesis
    proof cases
      case 1
      then show ?thesis by (simp add: edges_box box_right_top [OF x y])
    next
      case 2
      then show ?thesis by (simp add: edges_box box_right_left [OF x])
    next
      case 3
      then show ?thesis by (simp add: edges_box box_right_bottom [OF x y])
    next
      case 4
      then show ?thesis by (simp add: edges_box box_top_left [OF x y])
    next
      case 5
      then show ?thesis by (simp add: edges_box box_top_bottom [OF y])
    next
      case 6
      then show ?thesis by (simp add: edges_box box_left_bottom [OF x y])
    qed
  qed
  have "hd (box minx miny maxx maxy) = last (box minx miny maxx maxy)"
    by (simp add: box_def)
  then show ?thesis
    unfolding simple_ring_def Let_def n using pair by simp
qed

lemma side_lengths_box:
  assumes "minx \<le> maxx" and "miny \<le> maxy"
  shows "side_lengths (box minx miny maxx maxy) = [maxy - miny, maxx - minx, maxy - miny, maxx - minx]"
  using assms by (simp add: side_lengths_def edges_box segment_length_def)

lemma axis_aligned_box: "axis_aligned (box minx miny maxx maxy)"
  by (simp add: axis_aligned_def edges_box)

lemma strictly_inside_box:
  assumes "minx < px" "px < maxx" "miny < py" "py < maxy"
  shows "strictly_inside (px, py) (box minx miny maxx maxy)"
  using assms by (simp add: strictly_inside_def edges_box cross_def mult_less_0_iff zero_less_mult_iff)

lemma geometry_update_columns:
  assumes "r = s\<lparr>geo_row.geometry := p\<rparr>"
  shows "longitude r = longitude s" and "latitude r = latitude s"
    and "row.cell r = row.cell s" and "n_seagrass_plants r = n_seagrass_plants s"
    and "row.method r = row.method s"
  using assms by simp_all

lemma create_grid_df_cells:
  assumes res: "create_grid_df read_csv to_crs w file_name utm grid_size = Inr (gdf, grid_df)"
    and i: "i < length grid_df"
  shows "i < length gdf"
    and "to_crs 4326 utm (longitude (gdf ! i), latitude (gdf ! i)) = Inr (geo_row.geometry (gdf ! i))"
    and "grid_geometries gdf grid_size ! i =
           box (fst (geo_row.geometry (gdf ! i)) - grid_size / 2)
               (snd (geo_row.geometry (gdf ! i)) - grid_size / 2)
               (fst (geo_row.geometry (gdf ! i)) + grid_size / 2)
               (snd (geo_row.geometry (gdf ! i)) + grid_size / 2)"
    and "map_result (to_crs utm 4326) (grid_geometries gdf grid_size ! i)
           = Inr (grid_row.geometry (grid_df ! i))"
proof -
  from res obtain content df polys where
    f: "files w file_name = Some content" and r: "read_csv content = Inr df"
    and gdf: "to_crs_points to_crs 4326 utm (seagrass df) = Inr gdf"
    and polys: "to_crs_polygons to_crs utm 4326 (grid_geometries gdf grid_size) = Inr polys"
    and grid: "grid_df = add_columns polys (seagrass df)"
    by (rule create_grid_df_Inr)
  note g = to_crs_points_Inr [OF gdf]
  have lg: "length gdf = length df"
    using g(1) by (simp add: length_seagrass)
  from polys have mp: "map_result (map_result (to_crs utm 4326)) (grid_geometries gdf grid_size) = Inr polys"
    by (simp add: to_crs_polygons_def)
  have lp: "length polys = length df"
    using map_result_nth(1) [OF mp] by (simp add: length_grid_geometries lg)
  then have lps: "length polys = length (seagrass df)"
    by (simp add: length_seagrass)
  have idf: "i < length df"
    using i grid add_columns_maps(1) [OF lps] by (simp add: length_seagrass)
  show "i < length gdf"
    using idf lg by simp
  have "gdf ! i = (seagrass df ! i)\<lparr>geo_row.geometry := geo_row.geometry (gdf ! i)\<rparr>"
    using g(3) [of i] idf by (simp add: length_seagrass)
  then have "longitude (gdf ! i) = longitude (seagrass df ! i)"
    "latitude (gdf ! i) = latitude (seagrass df ! i)"
    by (rule geometry_update_columns)+
  then have cols: "longitude (gdf ! i) = longitude (df ! i)" "latitude (gdf ! i) = latitude (df ! i)"
    using idf by (simp_all add: seagrass_def)
  show "to_crs 4326 utm (longitude (gdf ! i), latitude (gdf ! i)) = Inr (geo_row.geometry (gdf ! i))"
    using g(2) [of i] idf cols by (simp add: length_seagrass seagrass_def)
  show "grid_geometries gdf grid_size ! i =
           box (fst (geo_row.geometry (gdf ! i)) - grid_size / 2)
               (snd (geo_row.geometry (gdf ! i)) - grid_size / 2)
               (fst (geo_row.geometry (gdf ! i)) + grid_size / 2)
               (snd (geo_row.geometry (gdf ! i)) + grid_size / 2)"
    using idf lg by (simp add: grid_geometries_def split: prod.splits)
  have "map grid_row.geometry grid_df = polys"
    using grid add_columns_maps(2) [OF lps] by simp
  then have "grid_row.geometry (grid_df ! i) = polys ! i"
    using i by (metis nth_map)
  moreover have "map_result (to_crs utm 4326) (grid_geometries gdf grid_size ! i) = Inr (polys ! i)"
    using map_result_nth(2) [OF mp, of i] idf lg by (simp add: length_grid_geometries)
  ultimately show "map_result (to_crs utm 4326) (grid_geometries gdf grid_size ! i)
           = Inr (grid_row.geometry (grid_df ! i))"
    by simp
qed

subsection \<open>The concrete inputs, run\<close>

lemma example_transformable: "transformable example_to_crs 32631 g r"
  by (simp add: transformable_def example_to_crs_def box_def)

lemma example_files:
  "files example_world ''random_lat_lon.txt'' = Some ''one record''"
  "files example_world ''polar.txt'' = Some ''latitude 200''"
  "files reseeded_world ''random_lat_lon.txt'' = Some ''one record''"
  "files example_world ''twins.txt'' = Some ''two records''"
  by (simp_all add: example_world_def reseeded_world_def)

lemma example_read:
  "example_read_csv ''one record'' = Inr [example_row]"
  "example_read_csv ''latitude 200'' = Inr [polar_row]"
  "example_read_csv ''two records'' = Inr [example_row, twin_row]"
  by (simp_all add: example_read_csv_def)

lemma twin_row_columns:
  "row.cell twin_row = 2" "n_seagrass_plants twin_row = 7" "row.method twin_row = PyInt 4"
  by (simp_all add: twin_row_def)

lemma example_row_columns:
  "row.cell example_row = 1" "n_seagrass_plants example_row = 42"
  "row.method example_row = PyInt 2" "latitude example_row = 51.4501"
  "longitude example_row = 4.1901"
  by (simp_all add: example_row_def)

lemma example_run:
  "create_grid_df example_read_csv example_to_crs example_world ''random_lat_lon.txt'' 32631 g
   = Inr (example_gdf,
          [example_cell [((419010 + g / 2) / 100000, (5145010 - g / 2) / 100000),
                         ((419010 + g / 2) / 100000, (5145010 + g / 2) / 100000),
                         ((419010 - g / 2) / 100000, (5145010 + g / 2) / 100000),
                         ((419010 - g / 2) / 100000, (5145010 - g / 2) / 100000),
                         ((419010 + g / 2) / 100000, (5145010 - g / 2) / 100000)]])"
  by (simp add: create_grid_df_def example_files example_read example_row_def seagrass_def
      to_crs_points_def to_crs_polygons_def grid_geometries_def box_def example_to_crs_def
      add_columns_def example_gdf_def example_cell_def)

lemma example_run_20:
  "create_grid_df example_read_csv example_to_crs example_world ''random_lat_lon.txt'' 32631 20
   = Inr (example_gdf, [example_cell example_ring])"
  by (simp add: example_run example_ring_def)

subsection \<open>create_grid_df\<close>






















subsection \<open>generate_random_data\<close>

paragraph \<open>Rounding to six decimals\<close>

lemma round_half_even_bounds: "\<lfloor>x\<rfloor> \<le> round_half_even x" "round_half_even x \<le> \<lfloor>x\<rfloor> + 1"
  by (simp_all add: round_half_even_def Let_def)

lemma round_half_even_mono:
  assumes "x \<le> y"
  shows "round_half_even x \<le> round_half_even y"
proof (cases "\<lfloor>x\<rfloor> = \<lfloor>y\<rfloor>")
  case True
  with assms show ?thesis
    by (simp add: round_half_even_def Let_def)
next
  case False
  with assms have "\<lfloor>x\<rfloor> + 1 \<le> \<lfloor>y\<rfloor>"
    using floor_mono [of x y] by linarith
  then show ?thesis
    using round_half_even_bounds(2) [of x] round_half_even_bounds(1) [of y] by linarith
qed

lemma round_half_even_of_int: "round_half_even (of_int k) = k"
  by (simp add: round_half_even_def)

lemma round_half_even_nonneg: "0 \<le> x \<Longrightarrow> 0 \<le> round_half_even x"
  using round_half_even_bounds(1) [of x] by (simp add: order_trans [of 0 "\<lfloor>x\<rfloor>"])

lemma millionths_mono: "\<bar>x\<bar> \<le> \<bar>y\<bar> \<Longrightarrow> millionths x \<le> millionths y"
  unfolding millionths_def by (intro nat_mono round_half_even_mono) simp

lemma value_6f_mono:
  assumes "x \<le> y"
  shows "value_6f x \<le> value_6f y"
proof -
  consider "y < 0" | "x < 0" "0 \<le> y" | "0 \<le> x"
    by linarith
  then show ?thesis
  proof cases
    case 1
    with assms have "\<bar>y\<bar> \<le> \<bar>x\<bar>" "x < 0" by simp_all
    then show ?thesis
      using 1 millionths_mono [of y x] by (simp add: value_6f_def)
  next
    case 2
    then show ?thesis
      by (simp add: value_6f_def)
  next
    case 3
    with assms have "\<bar>x\<bar> \<le> \<bar>y\<bar>" "0 \<le> y" by simp_all
    then show ?thesis
      using 3 millionths_mono [of x y] by (simp add: value_6f_def)
  qed
qed

lemma value_6f_exact: "value_6f (of_int k / 1000000) = of_int k / 1000000"
proof -
  have "\<bar>of_int k / 1000000\<bar> * 1000000 = (of_int \<bar>k\<bar> :: real)"
    by simp
  then have "millionths (of_int k / 1000000) = nat \<bar>k\<bar>"
    unfolding millionths_def by (simp only: round_half_even_of_int)
  then show ?thesis
    by (simp add: value_6f_def)
qed

lemma between_bounds:
  fixes a b u :: real
  assumes "0 \<le> u" and "u < 1"
  shows "min a b \<le> a + u * (b - a)" and "a + u * (b - a) \<le> max a b"
proof -
  have e: "a + u * (b - a) = (1 - u) * a + u * b"
    by (simp add: algebra_simps)
  have "(1 - u) * min a b \<le> (1 - u) * a" "u * min a b \<le> u * b"
    "(1 - u) * a \<le> (1 - u) * max a b" "u * b \<le> u * max a b"
    using assms by (auto intro!: mult_left_mono)
  then show "min a b \<le> a + u * (b - a)" and "a + u * (b - a) \<le> max a b"
    unfolding e by (simp_all add: algebra_simps)
qed

paragraph \<open>The lines of the file\<close>

lemma digit_not_NL:
  assumes "k < 10"
  shows "''0123456789'' ! k \<noteq> NL" and "NL \<noteq> ''0123456789'' ! k"
proof -
  have "''0123456789'' ! k \<in> set ''0123456789''"
    using assms by (intro nth_mem) simp
  moreover have "NL \<notin> set ''0123456789''"
    by (simp add: NL_def)
  ultimately show "''0123456789'' ! k \<noteq> NL" and "NL \<noteq> ''0123456789'' ! k"
    by metis+
qed

lemma NL_notin_digits: "NL \<notin> set (digits n)"
proof (induction n rule: digits.induct)
  case (1 n)
  show ?case
  proof (cases "n < 10")
    case True
    then show ?thesis
      by (subst digits.simps) (simp add: digit_not_NL)
  next
    case False
    then show ?thesis
      using 1 by (subst digits.simps) (simp add: digit_not_NL)
  qed
qed

lemma NL_notin_format_d: "NL \<notin> set (format_d n)"
  using NL_notin_digits by (simp add: format_d_def NL_def)

lemma NL_notin_format_6f: "NL \<notin> set (format_6f r)"
  using NL_notin_digits by (auto simp: format_6f_def NL_def)

lemma count_NL_notin: "NL \<notin> set xs \<Longrightarrow> count_list xs NL = 0"
  by (simp add: count_list_0_iff)

lemma count_NL_format_row:
  assumes "NL \<notin> set label"
  shows "count_list (format_row (c, lat, lon, n, label)) NL = 1"
  using assms
  by (simp add: format_row_def count_NL_notin NL_notin_format_d NL_notin_format_6f)
     (simp add: TAB_def NL_def)

lemma count_NL_header: "count_list header NL = 1"
  by (simp add: header_def TAB_def NL_def)

paragraph \<open>Reading the six decimals back\<close>

lemma digit_in_range: "k < 10 \<Longrightarrow> ''0123456789'' ! k \<in> set ''0123456789''"
  by (intro nth_mem) simp

lemma digit_value_digit: "k < 10 \<Longrightarrow> digit_value (''0123456789'' ! k) = k"
proof -
  assume "k < 10"
  then have "k \<in> {0, 1, 2, 3, 4, 5, 6, 7, 8, 9}"
    by auto
  then show ?thesis
    by (auto simp: digit_value_def)
qed

lemma set_digits: "set (digits n) \<subseteq> set ''0123456789''"
proof (induction n rule: digits.induct)
  case (1 n)
  show ?case
  proof (cases "n < 10")
    case True
    then show ?thesis
      using digit_in_range [of n] by (subst digits.simps) simp
  next
    case False
    then show ?thesis
      using 1 digit_in_range [of "n mod 10"] by (subst digits.simps) simp
  qed
qed

lemma decimal_value_snoc: "decimal_value (s @ [c]) = 10 * decimal_value s + digit_value c"
  by (simp add: decimal_value_def)

lemma decimal_value_digits: "decimal_value (digits n) = n"
proof (induction n rule: digits.induct)
  case (1 n)
  show ?case
  proof (cases "n < 10")
    case True
    then show ?thesis
      by (subst digits.simps) (simp add: decimal_value_def digit_value_digit)
  next
    case False
    then have "decimal_value (digits n)
        = 10 * decimal_value (digits (n div 10)) + digit_value (''0123456789'' ! (n mod 10))"
      by (subst digits.simps) (simp add: decimal_value_snoc)
    also have "\<dots> = 10 * (n div 10) + n mod 10"
      using 1 False by (simp add: digit_value_digit)
    finally show ?thesis by simp
  qed
qed

lemma decimal_value_zeros: "decimal_value (replicate k CHR ''0'' @ s) = decimal_value s"
proof -
  have "foldl (\<lambda>a c. 10 * a + digit_value c) 0 (replicate k CHR ''0'') = 0"
    by (induction k) (simp_all add: digit_value_def)
  then show ?thesis
    by (simp add: decimal_value_def)
qed

lemma length_digits:
  assumes "n < 10 ^ k" and "0 < k"
  shows "length (digits n) \<le> k"
  using assms
proof (induction n arbitrary: k rule: digits.induct)
  case (1 n)
  show ?case
  proof (cases "n < 10")
    case True
    then show ?thesis
      using "1.prems" by (subst digits.simps) simp
  next
    case False
    obtain j where k: "k = Suc j"
      using "1.prems"(2) by (cases k) auto
    have "0 < j"
    proof (rule ccontr)
      assume "\<not> 0 < j"
      then have "k = 1" using k by simp
      with "1.prems"(1) False show False by simp
    qed
    moreover have "n div 10 < 10 ^ j"
      using "1.prems"(1) k by (simp add: less_mult_imp_div_less mult.commute)
    ultimately have "length (digits (n div 10)) \<le> j"
      using "1.IH" False by simp
    then show ?thesis
      using False k by (subst digits.simps) simp
  qed
qed

lemma round_half_even_error: "\<bar>real_of_int (round_half_even x) - x\<bar> \<le> 1 / 2"
proof -
  have "of_int \<lfloor>x\<rfloor> \<le> x" "x < of_int \<lfloor>x\<rfloor> + 1"
    by linarith+
  then show ?thesis
    by (auto simp: round_half_even_def Let_def abs_le_iff)
qed

lemma value_6f_error: "\<bar>value_6f r - r\<bar> \<le> 1 / 2000000"
proof -
  have n: "0 \<le> round_half_even (\<bar>r\<bar> * 1000000)"
    by (rule round_half_even_nonneg) simp
  have "\<bar>real_of_int (round_half_even (\<bar>r\<bar> * 1000000)) - \<bar>r\<bar> * 1000000\<bar> \<le> 1 / 2"
    by (rule round_half_even_error)
  then have "\<bar>real (millionths r) - \<bar>r\<bar> * 1000000\<bar> \<le> 1 / 2"
    using n by (simp add: millionths_def)
  then have e: "\<bar>real (millionths r) / 1000000 - \<bar>r\<bar>\<bar> \<le> 1 / 2000000"
    by (simp add: abs_le_iff field_simps)
  show ?thesis
  proof (cases "r < 0")
    case True
    then have "value_6f r - r = - (real (millionths r) / 1000000 - \<bar>r\<bar>)"
      by (simp add: value_6f_def)
    then show ?thesis
      using e by (simp only: abs_minus)
  next
    case False
    then have "value_6f r - r = real (millionths r) / 1000000 - \<bar>r\<bar>"
      by (simp add: value_6f_def)
    then show ?thesis
      using e by simp
  qed
qed

lemma digits_nonempty: "digits n \<noteq> []"
  by (subst digits.simps) simp

lemma point_notin_digits: "CHR ''.'' \<notin> set (digits n)"
  using set_digits [of n] by auto

lemma minus_notin_digits: "CHR ''-'' \<notin> set (digits n)"
  using set_digits [of n] by auto

lemma read_unsigned_parts:
  assumes "CHR ''.'' \<notin> set whole"
  shows "read_unsigned (whole @ ''.'' @ fraction)
         = real (decimal_value whole) + real (decimal_value fraction) / 10 ^ length fraction"
proof -
  have p: "\<forall>c \<in> set whole. c \<noteq> CHR ''.''"
    using assms by blast
  have w: "takeWhile (\<lambda>c. c \<noteq> CHR ''.'') (whole @ ''.'' @ fraction) = whole"
    using p by (simp add: takeWhile_tail)
  have d: "dropWhile (\<lambda>c. c \<noteq> CHR ''.'') (whole @ ''.'' @ fraction) = ''.'' @ fraction"
    using p by (simp add: dropWhile_append3)
  show ?thesis
    unfolding read_unsigned_def Let_def w d by simp
qed

lemma split_millionths:
  "real (m div 1000000) + real (m mod 1000000) / 1000000 = real m / 1000000"
proof -
  have "m = 1000000 * (m div 1000000) + m mod 1000000"
    by simp
  then have "real m = 1000000 * real (m div 1000000) + real (m mod 1000000)"
    by (metis of_nat_add of_nat_mult of_nat_numeral)
  then show ?thesis
    by simp
qed

lemma read_unsigned_digits:
  "read_unsigned (digits (m div 1000000) @ ''.''
     @ replicate (6 - length (digits (m mod 1000000))) CHR ''0'' @ digits (m mod 1000000))
   = real m / 1000000"
proof -
  let ?fraction = "replicate (6 - length (digits (m mod 1000000))) CHR ''0''
                     @ digits (m mod 1000000)"
  have "length (digits (m mod 1000000)) \<le> 6"
    by (rule length_digits) simp_all
  then have lf: "length ?fraction = 6"
    by simp
  have vf: "decimal_value ?fraction = m mod 1000000"
    by (simp only: decimal_value_zeros decimal_value_digits)
  have "read_unsigned (digits (m div 1000000) @ ''.'' @ ?fraction)
        = real (decimal_value (digits (m div 1000000)))
          + real (decimal_value ?fraction) / 10 ^ length ?fraction"
    using point_notin_digits by (rule read_unsigned_parts)
  also have "\<dots> = real (m div 1000000) + real (m mod 1000000) / 1000000"
    by (simp only: lf vf decimal_value_digits) simp
  finally show ?thesis
    by (simp only: split_millionths)
qed

lemma read_decimal_format_6f: "read_decimal (format_6f r) = value_6f r"
proof (cases "r < 0")
  case True
  let ?body = "digits (millionths r div 1000000) @ ''.''
     @ replicate (6 - length (digits (millionths r mod 1000000))) CHR ''0''
     @ digits (millionths r mod 1000000)"
  have f: "format_6f r = ''-'' @ ?body"
    using True by (simp add: format_6f_def)
  have "read_decimal (''-'' @ ?body) = - read_unsigned ?body"
    by (simp add: read_decimal_def)
  then show ?thesis
    unfolding f using True by (simp only: read_unsigned_digits) (simp add: value_6f_def)
next
  case False
  let ?body = "digits (millionths r div 1000000) @ ''.''
     @ replicate (6 - length (digits (millionths r mod 1000000))) CHR ''0''
     @ digits (millionths r mod 1000000)"
  have f: "format_6f r = ?body"
    using False by (simp add: format_6f_def)
  obtain c cs where c: "digits (millionths r div 1000000) = c # cs"
    using digits_nonempty by (cases "digits (millionths r div 1000000)") auto
  then have "c \<noteq> CHR ''-''"
    using minus_notin_digits [of "millionths r div 1000000"] by auto
  then have "take 1 ?body \<noteq> ''-''"
    by (simp add: c)
  then have "read_decimal ?body = read_unsigned ?body"
    by (simp only: read_decimal_def if_False)
  then show ?thesis
    unfolding f using False by (simp only: read_unsigned_digits) (simp add: value_6f_def)
qed

lemma written_6f_value: "written_6f r = value_6f r"
  by (simp add: written_6f_def read_decimal_format_6f)

lemma written_6f_mono: "x \<le> y \<Longrightarrow> written_6f x \<le> written_6f y"
  by (simp add: written_6f_value value_6f_mono)

lemma written_6f_exact: "written_6f (of_int k / 1000000) = of_int k / 1000000"
  by (simp add: written_6f_value value_6f_exact)

lemma written_6f_error: "\<bar>written_6f r - r\<bar> \<le> 1 / 2000000"
  by (simp only: written_6f_value value_6f_error)

paragraph \<open>The loop\<close>

lemma data_row_values:
  assumes "rng_contract randint random"
  shows "\<exists>lat lon n_plants.
           fst (data_row randint random min_lat max_lat min_lon max_lon i s)
             = (int i + 1, lat, lon, n_plants,
                if i < 25 then ''1'' else if i < 50 then ''2'' else if i < 75 then ''3'' else ''4'')
         \<and> 0 \<le> n_plants \<and> n_plants \<le> 100
         \<and> min min_lat max_lat \<le> lat \<and> lat \<le> max min_lat max_lat
         \<and> min min_lon max_lon \<le> lon \<and> lon \<le> max min_lon max_lon"
proof -
  obtain n s1 where n: "randint 0 100 s = (n, s1)"
    by (cases "randint 0 100 s")
  obtain u s2 where u: "random s1 = (u, s2)"
    by (cases "random s1")
  obtain v s3 where v: "random s2 = (v, s3)"
    by (cases "random s2")
  have "0 \<le> fst (randint 0 100 s) \<and> fst (randint 0 100 s) \<le> 100"
    using assms unfolding rng_contract_def by simp
  then have nb: "0 \<le> n" "n \<le> 100"
    using n by simp_all
  have "0 \<le> fst (random s1) \<and> fst (random s1) < 1" "0 \<le> fst (random s2) \<and> fst (random s2) < 1"
    using assms unfolding rng_contract_def by simp_all
  then have ub: "0 \<le> u" "u < 1" and vb: "0 \<le> v" "v < 1"
    using u v by simp_all
  have "fst (data_row randint random min_lat max_lat min_lon max_lon i s)
          = (int i + 1, min_lat + u * (max_lat - min_lat), min_lon + v * (max_lon - min_lon), n,
             if i < 25 then ''1'' else if i < 50 then ''2'' else if i < 75 then ''3'' else ''4'')"
    by (simp add: data_row_def n u v)
  then show ?thesis
    using nb between_bounds [OF ub] between_bounds [OF vb] by blast
qed

lemma data_rows_Cons:
  "fst (data_rows randint random min_lat max_lat min_lon max_lon (i # idx) s)
   = fst (data_row randint random min_lat max_lat min_lon max_lon i s)
     # fst (data_rows randint random min_lat max_lat min_lon max_lon idx
              (snd (data_row randint random min_lat max_lat min_lon max_lon i s)))"
  by (simp add: Let_def split: prod.splits)

lemma data_rows_length:
  "length (fst (data_rows randint random min_lat max_lat min_lon max_lon idx s)) = length idx"
proof (induction idx arbitrary: s)
  case Nil
  then show ?case by simp
next
  case (Cons i idx)
  then show ?case
    by (simp only: data_rows_Cons length_Cons)
qed

lemma data_rows_nth:
  assumes "k < length idx"
  shows "\<exists>s'. fst (data_rows randint random min_lat max_lat min_lon max_lon idx s) ! k
               = fst (data_row randint random min_lat max_lat min_lon max_lon (idx ! k) s')"
  using assms
proof (induction idx arbitrary: s k)
  case Nil
  then show ?case by simp
next
  case (Cons i idx)
  show ?case
  proof (cases k)
    case 0
    then show ?thesis
      by (simp only: data_rows_Cons nth_Cons_0) blast
  next
    case (Suc j)
    with Cons.prems have "j < length idx" by simp
    then show ?thesis
      unfolding Suc data_rows_Cons nth_Cons_Suc by (rule Cons.IH)
  qed
qed

lemma label_no_NL:
  "NL \<notin> set (if i < 25 then ''1'' else if i < 50 then ''2'' else if i < (75::nat) then ''3'' else ''4'')"
  by (simp add: NL_def)

lemma data_row_label:
  "\<exists>c lat lon n. fst (data_row randint random min_lat max_lat min_lon max_lon i s)
     = (c, lat, lon, n,
        if i < 25 then ''1'' else if i < 50 then ''2'' else if i < 75 then ''3'' else ''4'')"
  by (simp add: data_row_def Let_def split: prod.splits)

lemma data_rows_count_NL:
  "count_list (concat (map format_row
      (fst (data_rows randint random min_lat max_lat min_lon max_lon idx s)))) NL = length idx"
proof (induction idx arbitrary: s)
  case Nil
  then show ?case by simp
next
  case (Cons i idx)
  have "count_list (format_row (fst (data_row randint random min_lat max_lat min_lon max_lon i s))) NL = 1"
    using data_row_label [of randint random min_lat max_lat min_lon max_lon i s]
      count_NL_format_row [OF label_no_NL, of _ _ _ _ i]
    by metis
  then show ?case
    unfolding data_rows_Cons using Cons.IH by simp
qed

lemma files_generate_random_data:
  "files (generate_random_data seed_rng randint random min_lat max_lat min_lon max_lon num_rows
            file_name seed w) file_name
   = Some (header @ concat (map format_row
       (fst (data_rows randint random min_lat max_lat min_lon max_lon [0..<nat num_rows]
              (seed_rng seed (rng w))))))"
  by (simp add: generate_random_data_def split: prod.splits)


lemma replicate_numeral: "replicate (numeral k) x = x # replicate (pred_numeral k) x"
  by (simp add: numeral_eq_Suc)

lemma format_row_tuple:
  "format_row (c, lat, lon, n, label)
   = format_d c @ [TAB] @ format_6f lat @ [TAB] @ format_6f lon @ [TAB] @ format_d n @ [TAB]
       @ label @ [NL]"
  by (simp add: format_row_def)

lemma example_rng_contract: "rng_contract example_randint example_random"
  by (simp add: rng_contract_def example_randint_def example_random_def)





subsection \<open>style_function\<close>

lemma style_function_method:
  assumes "getitem feature ''properties'' = Inr props" and "getitem props ''method'' = Inr m"
  shows "style_function feature =
     (if py_eq_int m 1 then Inr (Some \<lparr>color = ''orange'', weight = 4\<rparr>)
      else if py_eq_int m 2 then Inr (Some \<lparr>color = ''red'', weight = 4\<rparr>)
      else if py_eq_int m 3 then Inr (Some \<lparr>color = ''blue'', weight = 4\<rparr>)
      else if py_eq_int m 4 then Inr (Some \<lparr>color = ''Yellow'', weight = 4\<rparr>)
      else Inr None)"
  using assms by (simp add: style_function_def)

text \<open>
  C9: for a feature whose properties carry a method value \<open>m\<close>, \<open>style_function\<close> returns
  a style exactly when \<open>m\<close> equals one of the integers 1, 2, 3, 4, and then the style is
  orange, red, blue or Yellow (the string the code writes) with weight 4; for every other
  value, such as the integer 5 or the string "1", it returns \<open>None\<close>: no default style
  and no exception.
\<close>

theorem style_function_palette:
  assumes "getitem feature ''properties'' = Inr props" and "getitem props ''method'' = Inr m"
  shows "(py_eq_int m 1 \<longrightarrow> style_function feature = Inr (Some \<lparr>color = ''orange'', weight = 4\<rparr>))
       \<and> (py_eq_int m 2 \<longrightarrow> style_function feature = Inr (Some \<lparr>color = ''red'', weight = 4\<rparr>))
       \<and> (py_eq_int m 3 \<longrightarrow> style_function feature = Inr (Some \<lparr>color = ''blue'', weight = 4\<rparr>))
       \<and> (py_eq_int m 4 \<longrightarrow> style_function feature = Inr (Some \<lparr>color = ''Yellow'', weight = 4\<rparr>))
       \<and> (\<not> (py_eq_int m 1 \<or> py_eq_int m 2 \<or> py_eq_int m 3 \<or> py_eq_int m 4)
            \<longrightarrow> style_function feature = Inr None)
       \<and> (m = PyInt 5 \<or> m = PyStr ''1'' \<longrightarrow> style_function feature = Inr None)"
proof -
  have distinct_k: "py_eq_int m j \<Longrightarrow> py_eq_int m k \<Longrightarrow> j = k" for j k
    by (cases m) (auto split: if_splits)
  have "\<not> (py_eq_int m 1 \<and> py_eq_int m 2)" "\<not> (py_eq_int m 1 \<and> py_eq_int m 3)"
    "\<not> (py_eq_int m 1 \<and> py_eq_int m 4)" "\<not> (py_eq_int m 2 \<and> py_eq_int m 3)"
    "\<not> (py_eq_int m 2 \<and> py_eq_int m 4)" "\<not> (py_eq_int m 3 \<and> py_eq_int m 4)"
    using distinct_k by fastforce+
  then show ?thesis
    unfolding style_function_method [OF assms] by auto
qed

theorem style_function_palette_witness:
  "style_function (feature_with_method (PyInt 1)) = Inr (Some \<lparr>color = ''orange'', weight = 4\<rparr>)
   \<and> style_function (feature_with_method (PyInt 2)) = Inr (Some \<lparr>color = ''red'', weight = 4\<rparr>)
   \<and> style_function (feature_with_method (PyFloat 3)) = Inr (Some \<lparr>color = ''blue'', weight = 4\<rparr>)
   \<and> style_function (feature_with_method (PyInt 4)) = Inr (Some \<lparr>color = ''Yellow'', weight = 4\<rparr>)
   \<and> style_function (feature_with_method (PyInt 5)) = Inr None
   \<and> style_function (feature_with_method (PyStr ''1'')) = Inr None"
proof -
  have p: "getitem (feature_with_method m) ''properties'' = Inr (PyDict [(''method'', m)])" for m
    by (simp add: feature_with_method_def)
  have q: "getitem (PyDict [(''method'', m)]) ''method'' = Inr m" for m
    by simp
  show ?thesis
    using style_function_palette [OF p q, of "PyInt 1"] style_function_palette [OF p q, of "PyInt 2"]
      style_function_palette [OF p q, of "PyFloat 3"] style_function_palette [OF p q, of "PyInt 4"]
      style_function_palette [OF p q, of "PyInt 5"] style_function_palette [OF p q, of "PyStr ''1''"]
    by simp
qed

end
